theory Spec2Isabelle
  imports Complex_Main "HOL-Library.Word"
begin

section \<open>Machine types of the target (64-bit Linux)\<close>

type_synonym size_t = "64 word"
type_synonym uint32_t = "32 word"
type_synonym uint64_t = "64 word"
type_synonym uint8_t = "8 word"

text \<open>The largest value of \<^typ>\<open>size_t\<close>, as a natural number.\<close>

definition SIZE_MAX :: nat where
  "SIZE_MAX = 2 ^ 64 - 1"

section \<open>LockedQueue (CollectionInspectionAPITypes.h)\<close>

text \<open>
  The queue is a \<open>std::queue<T>\<close> behind a mutex, with a capacity fixed by the
  constructor. Every member function holds the mutex for its whole body, so each call is
  one atomic transition of the queue; the model is that transition. The \<open>std::queue\<close>
  is the list of its elements, front first; \<open>size()\<close> returns a \<open>size_t\<close>.
\<close>

record 'a LockedQueue =
  mMaxSize :: size_t
  mQueue :: "'a list"

definition LockedQueue_ctor :: "size_t \<Rightarrow> 'a LockedQueue" where
  "LockedQueue_ctor maxSize = \<lparr>mMaxSize = maxSize, mQueue = []\<rparr>"

text \<open>\<open>std::queue::size()\<close>: the number of elements as a \<open>size_t\<close>.\<close>

definition queue_size :: "'a list \<Rightarrow> size_t" where
  "queue_size xs = of_nat (length xs)"

text \<open>
  \<open>push\<close>: the comparison \<open>mQueue.size() + 1 > mMaxSize\<close> is unsigned 64-bit
  arithmetic, so the addition wraps. The result is the returned flag and the queue after
  the call.
\<close>

definition push :: "'a \<Rightarrow> 'a LockedQueue \<Rightarrow> bool \<times> 'a LockedQueue" where
  "push element q =
     (if queue_size (mQueue q) + 1 > mMaxSize q then (False, q)
      else (True, q\<lparr>mQueue := mQueue q @ [element]\<rparr>))"

text \<open>
  \<open>pop\<close> writes the front into the caller's variable \<open>element\<close> (an out-parameter:
  the call gets its old value and returns the new one) and removes it; on an empty queue
  it touches neither.
\<close>

definition pop :: "'a \<Rightarrow> 'a LockedQueue \<Rightarrow> bool \<times> 'a \<times> 'a LockedQueue" where
  "pop element q =
     (case mQueue q of
        [] \<Rightarrow> (False, element, q)
      | front # rest \<Rightarrow> (True, front, q\<lparr>mQueue := rest\<rparr>))"

definition isEmpty :: "'a LockedQueue \<Rightarrow> bool" where
  "isEmpty q = (mQueue q = [])"

text \<open>
  \<open>consumeAll\<close>: the loop \<open>while (pop(element)) { functor(element); consumed++; }\<close>.
  The functor is called for its effect, so it is a transformer of the caller's state
  \<open>'s\<close>; the loop carries the local \<open>element\<close>, the counter \<open>consumed\<close> (a
  \<open>size_t\<close>) and that state. No other thread pushes while the loop runs.
\<close>

function consumeAll_loop ::
  "('a \<Rightarrow> 's \<Rightarrow> 's) \<Rightarrow> 'a \<Rightarrow> size_t \<Rightarrow> 's \<Rightarrow> 'a LockedQueue \<Rightarrow> size_t \<times> 's \<times> 'a LockedQueue"
where
  "consumeAll_loop functor element consumed s q =
     (case pop element q of
        (popped, element', q') \<Rightarrow>
          if popped then consumeAll_loop functor element' (consumed + 1) (functor element' s) q'
          else (consumed, s, q))"
  by pat_completeness auto
termination
  by (relation "measure (\<lambda>(functor, element, consumed, s, q). length (mQueue q))")
     (auto simp: pop_def split: list.splits)

declare consumeAll_loop.simps [simp del]

text \<open>
  \<open>consumeAll\<close> itself: \<open>consumed = 0\<close> and a default-constructed \<open>T element\<close>
  (the parameter \<open>element0\<close>), then the loop.
\<close>

definition consumeAll ::
  "('a \<Rightarrow> 's \<Rightarrow> 's) \<Rightarrow> 'a \<Rightarrow> 's \<Rightarrow> 'a LockedQueue \<Rightarrow> size_t \<times> 's \<times> 'a LockedQueue"
where
  "consumeAll functor element0 s q = consumeAll_loop functor element0 0 s q"

text \<open>
  The class invariant: the queue holds at most \<open>mMaxSize\<close> elements.
\<close>

definition queue_inv :: "'a LockedQueue \<Rightarrow> bool" where
  "queue_inv q = (length (mQueue q) \<le> unat (mMaxSize q))"

subsection \<open>A client of the queue\<close>

text \<open>
  To speak about every sequence of calls, a client issues calls one after the other and
  keeps a history: the elements whose \<open>push\<close> returned true, in call order, and the
  elements handed out (by a \<open>pop\<close> that returned true, or to the functor of
  \<open>consumeAll\<close>), in the order they were handed out.
\<close>

datatype 'a queue_call = Push 'a | Pop | ConsumeAll

record 'a history =
  accepted :: "'a list"
  delivered :: "'a list"

fun exec_call ::
  "'a \<Rightarrow> 'a queue_call \<Rightarrow> 'a LockedQueue \<times> 'a history \<Rightarrow> 'a LockedQueue \<times> 'a history"
where
  "exec_call element0 (Push v) (q, h) =
     (case push v q of
        (ok, q') \<Rightarrow> (q', if ok then h\<lparr>accepted := accepted h @ [v]\<rparr> else h))"
| "exec_call element0 Pop (q, h) =
     (case pop element0 q of
        (ok, element, q') \<Rightarrow> (q', if ok then h\<lparr>delivered := delivered h @ [element]\<rparr> else h))"
| "exec_call element0 ConsumeAll (q, h) =
     (case consumeAll (\<lambda>element seen. seen @ [element]) element0 (delivered h) q of
        (consumed, seen, q') \<Rightarrow> (q', h\<lparr>delivered := seen\<rparr>))"

definition exec_calls ::
  "'a \<Rightarrow> 'a queue_call list \<Rightarrow> 'a LockedQueue \<times> 'a history \<Rightarrow> 'a LockedQueue \<times> 'a history"
where
  "exec_calls element0 calls st = fold (exec_call element0) calls st"

definition no_history :: "'a history" where
  "no_history = \<lparr>accepted = [], delivered = []\<rparr>"

section \<open>Configuration constants\<close>

text \<open>
  From CollectionInspectionAPITypes.h (\<open>static constexpr uint32_t\<close>) and from
  AwsIotChannel.h (\<open>static const uint64_t\<close> and \<open>static const size_t\<close>).
\<close>

definition MAX_NUMBER_OF_ACTIVE_CONDITION :: uint32_t where
  "MAX_NUMBER_OF_ACTIVE_CONDITION = 256"

definition ALL_CONDITIONS :: uint32_t where
  "ALL_CONDITIONS = 0xFFFFFFFF"

definition MAX_EQUATION_DEPTH :: uint32_t where
  "MAX_EQUATION_DEPTH = 10"

definition MAX_DIFFERENT_SIGNAL_IDS :: uint32_t where
  "MAX_DIFFERENT_SIGNAL_IDS = 50000"

definition MAXIMUM_IOT_SDK_HEAP_MEMORY_BYTES :: uint64_t where
  "MAXIMUM_IOT_SDK_HEAP_MEMORY_BYTES = 10000000"

definition AWS_IOT_MAX_MESSAGE_SIZE :: size_t where
  "AWS_IOT_MAX_MESSAGE_SIZE = 131072"

section \<open>ISOTPOverCANReceiver::receivePDU (ISOTPOverCANReceiver.cpp)\<close>

definition MAX_PDU_SIZE :: nat where
  "MAX_PDU_SIZE = 5000"

text \<open>
  \<open>std::vector<uint8_t>::resize(n)\<close>: the first \<open>n\<close> elements are kept, and new elements
  are value-initialised (zero).
\<close>

definition vector_resize :: "nat \<Rightarrow> uint8_t list \<Rightarrow> uint8_t list" where
  "vector_resize n v = take n v @ replicate (n - length v) 0"

text \<open>
  The operating system is the environment of the function. A call of \<open>poll\<close> returns an
  \<open>int\<close>. A call of \<open>read(fd, buf, count)\<close> either fails (it returns \<open>-1\<close> and leaves the
  buffer alone) or delivers a datagram: it copies at most \<open>count\<close> of its bytes to the
  start of the buffer and returns how many it copied. The buffer handed to \<open>read\<close> below
  has been resized to \<open>count\<close> bytes before the call.
\<close>

datatype read_outcome = ReadFails | ReadDelivers "uint8_t list"

definition read_socket :: "read_outcome \<Rightarrow> nat \<Rightarrow> uint8_t list \<Rightarrow> int \<times> uint8_t list" where
  "read_socket outcome count buf =
     (case outcome of
        ReadFails \<Rightarrow> (- 1, buf)
      | ReadDelivers bytes \<Rightarrow>
          (int (min (length bytes) count),
           take count bytes @ drop (min (length bytes) count) buf))"

text \<open>
  Of the receiver's options, \<open>receivePDU\<close> reads \<open>mP2TimeoutMs\<close> only. The constant
  \<open>P2_TIMEOUT_INFINITE\<close> comes from a header that is not among the sources, so it is a
  parameter. The function returns its \<open>bool\<close> and the vector \<open>pduData\<close> after the call.
\<close>

record ISOTPOverCANReceiverOptions =
  mP2TimeoutMs :: uint32_t

definition receivePDU ::
  "uint32_t \<Rightarrow> ISOTPOverCANReceiverOptions \<Rightarrow> int \<Rightarrow> read_outcome \<Rightarrow> uint8_t list \<Rightarrow>
   bool \<times> uint8_t list"
where
  "receivePDU P2_TIMEOUT_INFINITE mReceiverOptions res outcome pduData =
     (if mP2TimeoutMs mReceiverOptions > P2_TIMEOUT_INFINITE \<and> res \<le> 0 then (False, pduData)
      else
        (case read_socket outcome MAX_PDU_SIZE (vector_resize MAX_PDU_SIZE pduData) of
           (bytesRead, pduData') \<Rightarrow>
             (bytesRead > 0,
              if bytesRead > 0 then vector_resize (nat bytesRead) pduData'
              else vector_resize 0 pduData')))"

text \<open>
  The byte count \<open>read\<close> reports to \<open>receivePDU\<close>: it does not depend on the buffer's
  contents.
\<close>

definition bytes_read :: "read_outcome \<Rightarrow> int" where
  "bytes_read outcome = fst (read_socket outcome MAX_PDU_SIZE [])"

section \<open>CPUUsageInfo::reportCPUUsageInfo (CPUUsageInfo.cpp)\<close>

type_synonym long = "64 word"
type_synonym unsigned_long = "64 word"

text \<open>
  The function computes with \<open>double\<close>. Its floating-point operations are kept abstract:
  \<open>'d\<close> stands for \<open>double\<close>, and the conversions, operations and literals the function
  uses are the fields of a record. Every statement below holds for any such operations,
  IEEE 754 arithmetic among them.
\<close>

record 'd double_arith =
  d_of_long :: "long \<Rightarrow> 'd"
  d_of_ulong :: "unsigned_long \<Rightarrow> 'd"
  d_add :: "'d \<Rightarrow> 'd \<Rightarrow> 'd"
  d_mul :: "'d \<Rightarrow> 'd \<Rightarrow> 'd"
  d_div :: "'d \<Rightarrow> 'd \<Rightarrow> 'd"
  d_1em6 :: 'd
  d_100 :: 'd

text \<open>The fields of \<open>struct rusage\<close> the function reads, and the members it writes.\<close>

record timeval =
  tv_sec :: long
  tv_usec :: long

record rusage =
  ru_utime :: timeval
  ru_stime :: timeval

record 'd CPUUsageInfo =
  mUserSpaceTime :: 'd
  mKernelSpaceTime :: 'd
  mIdleTime :: 'd

text \<open>
  \<open>std::getline\<close> stores the characters before the first newline; \<open>c_str()\<close> is read up to
  the first NUL.
\<close>

definition getline :: "string \<Rightarrow> string" where
  "getline content = takeWhile (\<lambda>c. c \<noteq> CHR 0x0A) content"

definition c_str :: "string \<Rightarrow> string" where
  "c_str str = takeWhile (\<lambda>c. c \<noteq> CHR 0x00) str"

text \<open>
  The environment: \<open>getrusage_result\<close> is the return code of \<open>getrusage\<close> with the struct it
  filled; \<open>uptimeFile\<close> is \<open>None\<close> when \<open>/proc/uptime\<close> cannot be opened and the file's
  content otherwise; \<open>sscanf_lu4\<close> is the C library's \<open>sscanf\<close> for the format
  \<open>"%lu.%lu %lu.%lu"\<close>: from the string it gives the return value and the values of the four
  variables after the call (they are 0 before it). The result is the returned \<open>bool\<close> and
  the object after the call.
\<close>

definition reportCPUUsageInfo ::
  "'d double_arith \<Rightarrow>
   (string \<Rightarrow> int \<times> unsigned_long \<times> unsigned_long \<times> unsigned_long \<times> unsigned_long) \<Rightarrow>
   int \<times> rusage \<Rightarrow> string option \<Rightarrow> 'd CPUUsageInfo \<Rightarrow> bool \<times> 'd CPUUsageInfo"
where
  "reportCPUUsageInfo D sscanf_lu4 getrusage_result uptimeFile this =
     (case getrusage_result of
        (rc, currentProcessUsage) \<Rightarrow>
          if rc \<noteq> 0 then (False, this)
          else
            let this1 = this
                  \<lparr>mUserSpaceTime :=
                     d_add D (d_of_long D (tv_sec (ru_utime currentProcessUsage)))
                       (d_mul D (d_1em6 D) (d_of_long D (tv_usec (ru_utime currentProcessUsage)))),
                   mKernelSpaceTime :=
                     d_add D (d_of_long D (tv_sec (ru_stime currentProcessUsage)))
                       (d_mul D (d_1em6 D) (d_of_long D (tv_usec (ru_stime currentProcessUsage))))\<rparr>
            in
              (case uptimeFile of
                 None \<Rightarrow> (True, this1)
               | Some content \<Rightarrow>
                   (case sscanf_lu4 (c_str (getline content)) of
                      (assigned, uptimeSeconds, uptimeFraction, idleTimeSeconds, idleTimeFraction) \<Rightarrow>
                        if assigned = 4
                        then
                          (True,
                           this1\<lparr>mIdleTime :=
                             d_add D (d_of_ulong D uptimeSeconds)
                               (d_div D (d_of_ulong D idleTimeFraction) (d_100 D))\<rparr>)
                        else (True, this1))))"

subsection \<open>The C library's scanner for the format of /proc/uptime\<close>

text \<open>
  A model of \<open>sscanf(str, "%lu.%lu %lu.%lu", ...)\<close> in the C locale, to run the function on
  concrete lines. \<open>%lu\<close> skips white space, takes an optional sign and then at least one
  decimal digit, and converts as \<open>strtoul\<close> does: a value beyond \<open>ULONG_MAX\<close> becomes
  \<open>ULONG_MAX\<close>, a minus sign negates modulo \<open>2^64\<close>. The \<open>.\<close> of the format must match
  the next character; the blank of the format skips white space, which the following
  \<open>%lu\<close> does as well. The return value is the number of variables assigned, or \<open>EOF\<close>
  (\<open>-1\<close>) when the input ends before the first conversion.
\<close>

definition isspace_c :: "char \<Rightarrow> bool" where
  "isspace_c c = (c \<in> set [CHR '' '', CHR 0x09, CHR 0x0A, CHR 0x0B, CHR 0x0C, CHR 0x0D])"

definition isdigit_c :: "char \<Rightarrow> bool" where
  "isdigit_c c = (48 \<le> (of_char c :: nat) \<and> (of_char c :: nat) \<le> 57)"

definition decimal_value :: "string \<Rightarrow> int" where
  "decimal_value ds = foldl (\<lambda>n c. 10 * n + (of_char c - 48)) 0 ds"

definition strtoul_value :: "bool \<Rightarrow> string \<Rightarrow> unsigned_long" where
  "strtoul_value negative ds =
     (let n = decimal_value ds
      in if n > 2 ^ 64 - 1 then - 1 else if negative then - of_int n else of_int n)"

definition scan_lu :: "string \<Rightarrow> (unsigned_long \<times> string) option" where
  "scan_lu s =
     (let s1 = dropWhile isspace_c s;
          negative = (case s1 of [] \<Rightarrow> False | c # _ \<Rightarrow> c = CHR ''-'');
          s2 = (case s1 of [] \<Rightarrow> [] | c # r \<Rightarrow> if c = CHR ''-'' \<or> c = CHR ''+'' then r else s1);
          ds = takeWhile isdigit_c s2
      in if ds = [] then None else Some (strtoul_value negative ds, dropWhile isdigit_c s2))"

definition sscanf_uptime ::
  "string \<Rightarrow> int \<times> unsigned_long \<times> unsigned_long \<times> unsigned_long \<times> unsigned_long"
where
  "sscanf_uptime str =
     (case scan_lu str of
        None \<Rightarrow> (if dropWhile isspace_c str = [] then - 1 else 0, 0, 0, 0, 0)
      | Some (a, s1) \<Rightarrow>
          (case s1 of
             [] \<Rightarrow> (1, a, 0, 0, 0)
           | c1 # s2 \<Rightarrow>
               if c1 \<noteq> CHR ''.'' then (1, a, 0, 0, 0)
               else
                 (case scan_lu s2 of
                    None \<Rightarrow> (1, a, 0, 0, 0)
                  | Some (b, s3) \<Rightarrow>
                      (case scan_lu s3 of
                         None \<Rightarrow> (2, a, b, 0, 0)
                       | Some (c, s4) \<Rightarrow>
                           (case s4 of
                              [] \<Rightarrow> (3, a, b, c, 0)
                            | c2 # s5 \<Rightarrow>
                                if c2 \<noteq> CHR ''.'' then (3, a, b, c, 0)
                                else
                                  (case scan_lu s5 of
                                     None \<Rightarrow> (3, a, b, c, 0)
                                   | Some (d, s6) \<Rightarrow> (4, a, b, c, d)))))))"

text \<open>Exact arithmetic on the reals as one instance of the operations, to run examples.\<close>

definition exact_arith :: "real double_arith" where
  "exact_arith =
     \<lparr>d_of_long = (\<lambda>x. real_of_int (sint x)), d_of_ulong = (\<lambda>x. real (unat x)),
      d_add = (+), d_mul = (*), d_div = (/), d_1em6 = 1 / 1000000, d_100 = 100\<rparr>"

section \<open>Trigger engine: the minimum publish interval (specification, section 4.5)\<close>

type_synonym Timestamp = int

text \<open>
  The fields of \<open>ConditionWithCollectedData\<close> (CollectionInspectionAPITypes.h) that gate a
  trigger, and the state the specification keeps per condition.
\<close>

record Condition =
  minimumPublishIntervalMs :: uint32_t
  afterDuration :: uint32_t
  triggerOnlyOnRisingEdge :: bool

record ConditionState =
  last_eval :: bool
  last_trigger_ts :: Timestamp
  pending_after :: "Timestamp option"

datatype tick_outcome = NoTrigger | Triggered Timestamp bool

text \<open>
  Modelled from the spec: the tick of the trigger engine for one condition (the inspection
  engine that implements it is not among the sources), steps 2a to 2g of section 4.5 in
  their order. \<open>v\<close> is the value of the condition's expression at \<open>now\<close> with
  \<open>INVALID\<close> coerced to false (step a); \<open>push_ok\<close> says whether the publish queue takes
  the trigger. Timestamps are mathematical integers, as the specification's arithmetic on
  them is. Step b skips; for a rising edge to be seen again (Scenario 2) the value is
  recorded in \<open>last_eval\<close> there as in step d, and in step g. Step g updates
  \<open>last_trigger_ts\<close> whether or not the push succeeded, as its text says. The outcome
  \<open>Triggered t pushed\<close> is a trigger with \<open>triggerTime = t\<close>.
\<close>

definition tick_condition ::
  "Condition \<Rightarrow> Timestamp \<Rightarrow> bool \<Rightarrow> bool \<Rightarrow> ConditionState \<Rightarrow> ConditionState \<times> tick_outcome"
where
  "tick_condition c now v push_ok st =
     (if triggerOnlyOnRisingEdge c \<and> last_eval st then (st\<lparr>last_eval := v\<rparr>, NoTrigger)
      else if \<not> v then (st\<lparr>last_eval := v, pending_after := None\<rparr>, NoTrigger)
      else if now - last_trigger_ts st < uint (minimumPublishIntervalMs c)
        then (st\<lparr>last_eval := v\<rparr>, NoTrigger)
      else if afterDuration c > 0 \<and> pending_after st = None
        then (st\<lparr>pending_after := Some (now + uint (afterDuration c)), last_eval := v\<rparr>, NoTrigger)
      else if (case pending_after st of None \<Rightarrow> False | Some deadline \<Rightarrow> now < deadline)
        then (st, NoTrigger)
      else
        (st\<lparr>last_eval := v, last_trigger_ts := now, pending_after := None\<rparr>,
         Triggered now push_ok))"

text \<open>
  A run of ticks on one condition: each tick comes with its clock value, the value of the
  expression and the answer of the publish queue. \<open>trigger_times\<close> lists the trigger times
  of the run in order.
\<close>

fun trigger_times ::
  "Condition \<Rightarrow> (Timestamp \<times> bool \<times> bool) list \<Rightarrow> ConditionState \<Rightarrow> Timestamp list"
where
  "trigger_times c [] st = []"
| "trigger_times c ((now, v, push_ok) # ticks) st =
     (case tick_condition c now v push_ok st of
        (st', NoTrigger) \<Rightarrow> trigger_times c ticks st'
      | (st', Triggered t pushed) \<Rightarrow> t # trigger_times c ticks st')"

text \<open>
  Successive times, starting after \<open>prev\<close>, are at least \<open>p\<close> apart; and the stronger
  reading, more than \<open>p\<close> apart.
\<close>

fun spaced :: "int \<Rightarrow> Timestamp \<Rightarrow> Timestamp list \<Rightarrow> bool" where
  "spaced p prev [] = True"
| "spaced p prev (t # ts) = (prev + p \<le> t \<and> spaced p t ts)"

fun strictly_spaced :: "int \<Rightarrow> Timestamp \<Rightarrow> Timestamp list \<Rightarrow> bool" where
  "strictly_spaced p prev [] = True"
| "strictly_spaced p prev (t # ts) = (prev + p < t \<and> strictly_spaced p t ts)"

section \<open>AwsIotChannel::send (specification, section 4.7; AwsIotChannel.h)\<close>

text \<open>
  Modelled from the spec: the results of \<open>send\<close> that section 4.7 names (the enumeration
  \<open>ConnectivityError\<close> is declared in a header that is not among the sources).
\<close>

datatype ConnectivityError = Success | QuotaReached | PayloadTooLarge

text \<open>
  Modelled from the spec: the SDK heap ledger. \<open>IConnectivityModule\<close> in AwsIotChannel.h
  only declares \<open>reserveMemoryUsage\<close> and \<open>releaseMemoryUsage\<close> (pure virtual); by their
  comments they add to and take from the usage, a \<open>uint64_t\<close>, and return the number
  of bytes after the change.
\<close>

definition reserveMemoryUsage :: "uint64_t \<Rightarrow> uint64_t \<Rightarrow> uint64_t" where
  "reserveMemoryUsage bytes usage = usage + bytes"


text \<open>
  Modelled from the spec: \<open>getMaxSendSize\<close> (declared in AwsIotChannel.h, its body is not
  among the sources): \<open>max_send_size() = 128 KiB\<close>, the constant of the header.
\<close>

definition getMaxSendSize :: size_t where
  "getMaxSendSize = AWS_IOT_MAX_MESSAGE_SIZE"

text \<open>
  Modelled from the spec: the readings of section 4.7. It names two failures of \<open>send\<close>
  and leaves two points open, and the body of \<open>send\<close> is not among the sources to settle
  them. They are parameters of the model, so that what is proved holds for every reading:
  \<^item> which check comes first, the payload's size or the quota;
  \<^item> whether the quota is reached at the budget (the specification's
    \<open>usage \<ge> 10 MB\<close>) or only above it (the header's comments: \<open>more than\<close>,
    \<open>exceeds\<close>).
\<close>

datatype check_order = SizeFirst | QuotaFirst

datatype quota_test = AtBudget | AboveBudget

text \<open>
  Modelled from the spec: the usage the ledger reports when \<open>bytes\<close> are reserved on top
  of \<open>usage\<close>, as a number (the specification's quantities are numbers of bytes; they do
  not wrap), and the quota test on it. Scenario 6 fixes that the reported usage includes
  the message: 9999000 bytes reserved and a payload of 2000 bytes give \<open>QuotaReached\<close>.
\<close>

definition reported_usage :: "uint64_t \<Rightarrow> size_t \<Rightarrow> nat" where
  "reported_usage usage bytes = unat usage + unat bytes"

definition quota_reached :: "quota_test \<Rightarrow> uint64_t \<Rightarrow> nat \<Rightarrow> bool" where
  "quota_reached test budget reported =
     (case test of
        AtBudget \<Rightarrow> reported \<ge> unat budget
      | AboveBudget \<Rightarrow> reported > unat budget)"

text \<open>
  Modelled from the spec: \<open>AwsIotChannel::send\<close> (declared in AwsIotChannel.h, its body is
  not among the sources), as far as section 4.7 describes it: a payload beyond
  \<open>max_send_size()\<close> fails with \<open>PayloadTooLarge\<close>; the call fails with \<open>QuotaReached\<close>
  when the SDK heap usage reaches the budget; on success the size is debited from the
  ledger. A failed call reserves nothing. The connection state and the transport, which
  section 4.7 does not describe for \<open>send\<close>, are left out. The arguments are the two
  readings, the channel's budget \<open>mMaximumIotSDKHeapMemoryBytes\<close>, the payload's size
  (\<open>size'\<close>) and the ledger; the result is the error code and the ledger after the call.
\<close>

definition send ::
  "check_order \<Rightarrow> quota_test \<Rightarrow> uint64_t \<Rightarrow> size_t \<Rightarrow> uint64_t \<Rightarrow> ConnectivityError \<times> uint64_t"
where
  "send order test mMaximumIotSDKHeapMemoryBytes size' usage =
     (let tooLarge = size' > getMaxSendSize;
          quotaHit = quota_reached test mMaximumIotSDKHeapMemoryBytes (reported_usage usage size')
      in case order of
           SizeFirst \<Rightarrow>
             if tooLarge then (PayloadTooLarge, usage)
             else if quotaHit then (QuotaReached, usage)
             else (Success, reserveMemoryUsage size' usage)
         | QuotaFirst \<Rightarrow>
             if quotaHit then (QuotaReached, usage)
             else if tooLarge then (PayloadTooLarge, usage)
             else (Success, reserveMemoryUsage size' usage))"


section \<open>Properties of LockedQueue\<close>

subsection \<open>Auxiliary facts\<close>

text \<open>
  As long as the queue holds fewer than \<open>SIZE_MAX\<close> elements, \<open>size() + 1\<close> does not
  wrap and the capacity check compares the true numbers.
\<close>

lemma push_rejects_iff:
  assumes "length xs < SIZE_MAX"
  shows "(queue_size xs + 1 > m) = (unat m < length xs + 1)"
proof -
  have small: "length xs + 1 < 2 ^ 64"
    using assms by (simp add: SIZE_MAX_def)
  have "queue_size xs + 1 = (of_nat (length xs + 1) :: size_t)"
    by (simp add: queue_size_def)
  then have "unat (queue_size xs + 1) = length xs + 1"
    using small by (simp only: unat_of_nat) simp
  then show ?thesis
    by (simp add: word_less_nat_alt)
qed

lemma consumeAll_loop_eq:
  "mQueue q = xs \<Longrightarrow>
   consumeAll_loop functor element consumed s q =
     (consumed + of_nat (length xs), fold functor xs s, q\<lparr>mQueue := []\<rparr>)"
proof (induction xs arbitrary: element consumed s q)
  case Nil
  then show ?case
    by (subst consumeAll_loop.simps) (simp add: pop_def)
next
  case (Cons x xs)
  have "mQueue (q\<lparr>mQueue := xs\<rparr>) = xs"
    by simp
  from Cons.IH [OF this] Cons.prems show ?case
    by (subst consumeAll_loop.simps) (simp add: pop_def)
qed

lemma consumeAll_eq:
  "consumeAll functor element0 s q =
     (of_nat (length (mQueue q)), fold functor (mQueue q) s, q\<lparr>mQueue := []\<rparr>)"
  by (simp add: consumeAll_def consumeAll_loop_eq [OF refl])

lemma fold_snoc_log: "fold (\<lambda>element seen. seen @ [element]) xs ys = ys @ xs"
  by (induction xs arbitrary: ys) auto

lemma exec_call_fifo:
  assumes "accepted h = delivered h @ mQueue q"
    and "exec_call element0 c (q, h) = (q', h')"
  shows "accepted h' = delivered h' @ mQueue q'"
proof (cases c)
  case (Push v)
  with assms show ?thesis
    by (auto simp: push_def split: if_splits)
next
  case Pop
  with assms show ?thesis
    by (auto simp: pop_def split: list.splits)
next
  case ConsumeAll
  with assms show ?thesis
    by (auto simp: consumeAll_eq fold_snoc_log)
qed

lemma exec_calls_fifo:
  "accepted h = delivered h @ mQueue q \<Longrightarrow>
   exec_calls element0 calls (q, h) = (q', h') \<Longrightarrow>
   accepted h' = delivered h' @ mQueue q'"
proof (induction calls arbitrary: q h)
  case Nil
  then show ?case
    by (simp add: exec_calls_def)
next
  case (Cons c calls)
  obtain q1 h1 where step: "exec_call element0 c (q, h) = (q1, h1)"
    by (cases "exec_call element0 c (q, h)")
  have "accepted h1 = delivered h1 @ mQueue q1"
    using exec_call_fifo [OF Cons.prems(1) step] .
  moreover have "exec_calls element0 calls (q1, h1) = (q', h')"
    using Cons.prems(2) step by (simp add: exec_calls_def)
  ultimately show ?case
    by (rule Cons.IH)
qed

lemma exec_calls_append:
  "exec_calls element0 (calls @ calls') st = exec_calls element0 calls' (exec_calls element0 calls st)"
  by (simp add: exec_calls_def)

lemma drain_by_pops:
  "mQueue q = xs \<Longrightarrow>
   exec_calls element0 (replicate (length xs) Pop) (q, h) =
     (q\<lparr>mQueue := []\<rparr>, h\<lparr>delivered := delivered h @ xs\<rparr>)"
proof (induction xs arbitrary: q h)
  case Nil
  then show ?case
    by (simp add: exec_calls_def)
next
  case (Cons x xs)
  have "mQueue (q\<lparr>mQueue := xs\<rparr>) = xs"
    by simp
  from Cons.IH [OF this, of "h\<lparr>delivered := delivered h @ [x]\<rparr>"] Cons.prems show ?case
    by (simp add: exec_calls_def pop_def)
qed






lemma exec_call_zero:
  "exec_call element0 c (LockedQueue_ctor 0, h) = (LockedQueue_ctor 0, h)"
  by (cases c)
    (auto simp: LockedQueue_ctor_def push_def pop_def queue_size_def consumeAll_eq)

lemma exec_calls_zero:
  "exec_calls element0 calls (LockedQueue_ctor 0, h) = (LockedQueue_ctor 0, h)"
  by (induction calls) (simp_all add: exec_calls_def exec_call_zero)

subsection \<open>Claims about the queue\<close>

text \<open>
  Claim C2. On a queue that satisfies its invariant, \<open>push\<close> returns false exactly when
  the queue already holds \<open>mMaxSize\<close> elements. In that case the queue after the call
  is the queue before it: the new element is dropped and no stored element is replaced.
  Below capacity the element is appended at the back. \<open>push\<close> is a total function:
  it never waits. (A \<open>std::queue\<close> cannot hold \<open>SIZE_MAX\<close> elements, which is what the
  second assumption records.)
\<close>

theorem push_false_iff_full:
  assumes "queue_inv q" and "length (mQueue q) < SIZE_MAX"
  shows "(fst (push v q) = False \<longleftrightarrow> length (mQueue q) = unat (mMaxSize q)) \<and>
         (length (mQueue q) = unat (mMaxSize q) \<longrightarrow> push v q = (False, q)) \<and>
         (length (mQueue q) < unat (mMaxSize q) \<longrightarrow>
            push v q = (True, q\<lparr>mQueue := mQueue q @ [v]\<rparr>))"
  using assms by (auto simp: push_def queue_inv_def push_rejects_iff)

theorem push_false_iff_full_witness:
  "queue_inv \<lparr>mMaxSize = 2, mQueue = [10, 20 :: nat]\<rparr> \<and>
   length (mQueue \<lparr>mMaxSize = 2, mQueue = [10, 20 :: nat]\<rparr>) < SIZE_MAX \<and>
   push 30 \<lparr>mMaxSize = 2, mQueue = [10, 20 :: nat]\<rparr> =
     (False, \<lparr>mMaxSize = 2, mQueue = [10, 20]\<rparr>) \<and>
   push 20 \<lparr>mMaxSize = 2, mQueue = [10 :: nat]\<rparr> =
     (True, \<lparr>mMaxSize = 2, mQueue = [10, 20]\<rparr>)"
proof -
  have full: "queue_inv \<lparr>mMaxSize = 2, mQueue = [10, 20 :: nat]\<rparr>"
    and part: "queue_inv \<lparr>mMaxSize = 2, mQueue = [10 :: nat]\<rparr>"
    by (simp_all add: queue_inv_def)
  have small: "length (mQueue \<lparr>mMaxSize = 2, mQueue = [10, 20 :: nat]\<rparr>) < SIZE_MAX"
    and small': "length (mQueue \<lparr>mMaxSize = 2, mQueue = [10 :: nat]\<rparr>) < SIZE_MAX"
    by (simp_all add: SIZE_MAX_def)
  show ?thesis
    using push_false_iff_full [OF full small, of 30] push_false_iff_full [OF part small', of 20]
      full small
    by simp
qed

text \<open>
  Claim C3. \<open>pop\<close> on a non-empty queue returns true, hands out the front element and
  removes exactly that element; \<open>pop\<close> on an empty queue returns false at once, leaves the
  caller's variable alone and leaves the queue empty. Whatever calls a client makes on a
  freshly constructed queue, the elements whose \<open>push\<close> succeeded are, in push order, the
  elements handed out so far followed by the elements still stored. Popping as many times
  as elements are stored hands out the stored elements front to back and empties the
  queue; so after any run, these pops complete the handed-out elements to exactly the
  accepted ones, in the order of acceptance, each once.
\<close>

theorem pop_fifo:
  "accepted (snd (exec_calls element0 calls (LockedQueue_ctor maxSize, no_history))) =
     delivered (snd (exec_calls element0 calls (LockedQueue_ctor maxSize, no_history))) @
     mQueue (fst (exec_calls element0 calls (LockedQueue_ctor maxSize, no_history))) \<and>
   pop element (q\<lparr>mQueue := x # xs\<rparr>) = (True, x, q\<lparr>mQueue := xs\<rparr>) \<and>
   pop element (q\<lparr>mQueue := []\<rparr>) = (False, element, q\<lparr>mQueue := []\<rparr>) \<and>
   exec_calls element0 (replicate (length (mQueue q)) Pop) (q, h) =
     (q\<lparr>mQueue := []\<rparr>, h\<lparr>delivered := delivered h @ mQueue q\<rparr>) \<and>
   delivered (snd (exec_calls element0
       (calls @
        replicate
          (length (mQueue (fst (exec_calls element0 calls (LockedQueue_ctor maxSize, no_history)))))
          Pop)
       (LockedQueue_ctor maxSize, no_history))) =
     accepted (snd (exec_calls element0 calls (LockedQueue_ctor maxSize, no_history))) \<and>
   accepted (snd (exec_calls element0
       (calls @
        replicate
          (length (mQueue (fst (exec_calls element0 calls (LockedQueue_ctor maxSize, no_history)))))
          Pop)
       (LockedQueue_ctor maxSize, no_history))) =
     accepted (snd (exec_calls element0 calls (LockedQueue_ctor maxSize, no_history)))"
proof -
  obtain q1 h1 where run: "exec_calls element0 calls (LockedQueue_ctor maxSize, no_history) = (q1, h1)"
    by (cases "exec_calls element0 calls (LockedQueue_ctor maxSize, no_history)")
  have "accepted no_history = delivered no_history @ mQueue (LockedQueue_ctor maxSize)"
    by (simp add: no_history_def LockedQueue_ctor_def)
  from exec_calls_fifo [OF this run] have inv: "accepted h1 = delivered h1 @ mQueue q1" .
  have drain: "exec_calls element0 (calls @ replicate (length (mQueue q1)) Pop)
      (LockedQueue_ctor maxSize, no_history) =
      (q1\<lparr>mQueue := []\<rparr>, h1\<lparr>delivered := delivered h1 @ mQueue q1\<rparr>)"
    by (simp add: exec_calls_append run drain_by_pops [OF refl])
  show ?thesis
    using inv by (simp add: run drain drain_by_pops [OF refl] pop_def)
qed

text \<open>A run on a queue of capacity 2: the third push is refused, the rest comes out in order.\<close>

lemma fifo_example:
  "exec_calls (0::nat) [Push 1, Push 2, Push 3, Pop, Push 4, ConsumeAll, Pop]
     (LockedQueue_ctor 2, no_history) =
   (LockedQueue_ctor 2, \<lparr>accepted = [1, 2, 4], delivered = [1, 2, 4]\<rparr>)"
  by (simp add: exec_calls_def LockedQueue_ctor_def no_history_def push_def pop_def
      queue_size_def consumeAll_eq)



text \<open>
  Claim C5. With n elements stored and no concurrent producer, \<open>consumeAll\<close> returns the
  count n, has applied the functor to the n elements from front to back (the functor's
  state is the fold over the stored list; a functor that logs its arguments logs exactly
  the stored list), and leaves the queue empty.
\<close>

theorem consumeAll_drains_in_order:
  assumes "length (mQueue q) \<le> SIZE_MAX"
  shows "unat (fst (consumeAll functor element0 s q)) = length (mQueue q) \<and>
         fst (snd (consumeAll functor element0 s q)) = fold functor (mQueue q) s \<and>
         fst (snd (consumeAll (\<lambda>element seen. seen @ [element]) element0 [] q)) = mQueue q \<and>
         snd (snd (consumeAll functor element0 s q)) = q\<lparr>mQueue := []\<rparr> \<and>
         isEmpty (snd (snd (consumeAll functor element0 s q)))"
proof -
  have "length (mQueue q) < 2 ^ 64"
    using assms by (simp add: SIZE_MAX_def)
  then have "unat (of_nat (length (mQueue q)) :: size_t) = length (mQueue q)"
    by (simp only: unat_of_nat) simp
  then show ?thesis
    by (simp add: consumeAll_eq fold_snoc_log isEmpty_def)
qed

theorem consumeAll_drains_in_order_witness:
  "length (mQueue \<lparr>mMaxSize = 5, mQueue = [7, 8, 9 :: nat]\<rparr>) \<le> SIZE_MAX \<and>
   unat (fst (consumeAll (\<lambda>element seen. seen @ [element]) 0 []
     \<lparr>mMaxSize = 5, mQueue = [7, 8, 9 :: nat]\<rparr>)) = 3 \<and>
   fst (snd (consumeAll (\<lambda>element seen. seen @ [element]) 0 []
     \<lparr>mMaxSize = 5, mQueue = [7, 8, 9 :: nat]\<rparr>)) = [7, 8, 9] \<and>
   snd (snd (consumeAll (\<lambda>element seen. seen @ [element]) 0 []
     \<lparr>mMaxSize = 5, mQueue = [7, 8, 9 :: nat]\<rparr>)) = \<lparr>mMaxSize = 5, mQueue = []\<rparr>"
proof -
  have small: "length (mQueue \<lparr>mMaxSize = 5, mQueue = [7, 8, 9 :: nat]\<rparr>) \<le> SIZE_MAX"
    by (simp add: SIZE_MAX_def)
  show ?thesis
    using small consumeAll_drains_in_order [OF small, of "\<lambda>element seen. seen @ [element]" 0 "[]"]
    by simp
qed

text \<open>
  Claim C8. A queue constructed with \<open>maxSize = 0\<close> refuses every push: the check
  \<open>size() + 1 > 0\<close> holds on the empty queue, so after any sequence of calls the queue is
  still the empty queue of capacity 0, nothing was accepted or handed out, and the next
  push returns false again.
\<close>

theorem zero_capacity_rejects_every_push:
  "push v (LockedQueue_ctor 0) = (False, LockedQueue_ctor 0) \<and>
   exec_calls element0 calls (LockedQueue_ctor 0, h) = (LockedQueue_ctor 0, h) \<and>
   mQueue (fst (exec_calls element0 calls (LockedQueue_ctor 0, h))) = [] \<and>
   push v (fst (exec_calls element0 calls (LockedQueue_ctor 0, h))) =
     (False, fst (exec_calls element0 calls (LockedQueue_ctor 0, h)))"
  by (simp add: exec_calls_zero) (simp add: LockedQueue_ctor_def push_def queue_size_def)

section \<open>Properties of the configuration constants\<close>

text \<open>
  Claim C7. The compile-time constants have the values the specification lists: 256
  active conditions, \<open>ALL_CONDITIONS = 0xFFFFFFFF\<close> (all 32 bits set), equation depth 10,
  50000 signal ids, an SDK heap budget of 10000000 bytes and a maximal message size of
  131072 bytes = 128 KiB.
\<close>

theorem configuration_constants:
  "MAX_NUMBER_OF_ACTIVE_CONDITION = 256 \<and>
   ALL_CONDITIONS = 0xFFFFFFFF \<and> unat ALL_CONDITIONS = 2 ^ 32 - 1 \<and>
   MAX_EQUATION_DEPTH = 10 \<and>
   MAX_DIFFERENT_SIGNAL_IDS = 50000 \<and>
   MAXIMUM_IOT_SDK_HEAP_MEMORY_BYTES = 10000000 \<and>
   unat MAXIMUM_IOT_SDK_HEAP_MEMORY_BYTES = 10 * 1000 * 1000 \<and>
   AWS_IOT_MAX_MESSAGE_SIZE = 131072 \<and>
   unat AWS_IOT_MAX_MESSAGE_SIZE = 128 * 1024"
  by (simp add: MAX_NUMBER_OF_ACTIVE_CONDITION_def ALL_CONDITIONS_def MAX_EQUATION_DEPTH_def
      MAX_DIFFERENT_SIGNAL_IDS_def MAXIMUM_IOT_SDK_HEAP_MEMORY_BYTES_def
      AWS_IOT_MAX_MESSAGE_SIZE_def)

section \<open>Properties of receivePDU\<close>

text \<open>
  Claim C9. When a finite timeout is configured and \<open>poll\<close> returns \<open>res \<le> 0\<close> (timeout
  or error), \<open>receivePDU\<close> returns false and \<open>pduData\<close> is exactly what the caller passed
  in. Otherwise \<open>read\<close> is called: the function returns true if and only if \<open>read\<close>
  reports a positive byte count; then \<open>pduData\<close> has exactly that many bytes (the bytes
  delivered), and when \<open>read\<close> reports zero or a negative count \<open>pduData\<close> is empty.
\<close>

theorem receivePDU_outcome:
  "(mP2TimeoutMs opts > P2_TIMEOUT_INFINITE \<and> res \<le> 0 \<longrightarrow>
      receivePDU P2_TIMEOUT_INFINITE opts res outcome pduData = (False, pduData)) \<and>
   (\<not> (mP2TimeoutMs opts > P2_TIMEOUT_INFINITE \<and> res \<le> 0) \<longrightarrow>
      fst (receivePDU P2_TIMEOUT_INFINITE opts res outcome pduData) = (bytes_read outcome > 0) \<and>
      (bytes_read outcome > 0 \<longrightarrow>
         int (length (snd (receivePDU P2_TIMEOUT_INFINITE opts res outcome pduData))) =
           bytes_read outcome) \<and>
      (bytes_read outcome \<le> 0 \<longrightarrow>
         snd (receivePDU P2_TIMEOUT_INFINITE opts res outcome pduData) = [])) \<and>
   (fst (receivePDU P2_TIMEOUT_INFINITE opts res outcome pduData) \<longleftrightarrow>
      \<not> (mP2TimeoutMs opts > P2_TIMEOUT_INFINITE \<and> res \<le> 0) \<and> bytes_read outcome > 0) \<and>
   (\<not> (mP2TimeoutMs opts > P2_TIMEOUT_INFINITE \<and> res \<le> 0) \<and> outcome = ReadDelivers bytes \<longrightarrow>
      snd (receivePDU P2_TIMEOUT_INFINITE opts res outcome pduData) = take MAX_PDU_SIZE bytes)"
  by (cases outcome)
    (auto simp: receivePDU_def read_socket_def bytes_read_def vector_resize_def MAX_PDU_SIZE_def
      min_def)

theorem receivePDU_outcome_witness:
  "mP2TimeoutMs \<lparr>mP2TimeoutMs = 1000\<rparr> > (0 :: uint32_t) \<and>
   receivePDU 0 \<lparr>mP2TimeoutMs = 1000\<rparr> 0 (ReadDelivers [1, 2, 3]) [9, 9] = (False, [9, 9]) \<and>
   bytes_read (ReadDelivers [1, 2, 3]) = 3 \<and>
   receivePDU 0 \<lparr>mP2TimeoutMs = 1000\<rparr> 1 (ReadDelivers [1, 2, 3]) [9, 9] = (True, [1, 2, 3]) \<and>
   bytes_read ReadFails = - 1 \<and>
   receivePDU 0 \<lparr>mP2TimeoutMs = 1000\<rparr> 1 ReadFails [9, 9] = (False, []) \<and>
   bytes_read (ReadDelivers []) = 0 \<and>
   receivePDU 0 \<lparr>mP2TimeoutMs = 0\<rparr> 0 (ReadDelivers []) [9, 9] = (False, [])"
proof -
  have p: "mP2TimeoutMs \<lparr>mP2TimeoutMs = 1000\<rparr> > (0 :: uint32_t)"
    and np: "\<not> mP2TimeoutMs \<lparr>mP2TimeoutMs = 0\<rparr> > (0 :: uint32_t)"
    by simp_all
  have b1: "bytes_read (ReadDelivers [1, 2, 3]) = 3"
    and b2: "bytes_read ReadFails = - 1"
    and b3: "bytes_read (ReadDelivers []) = 0"
    by (simp_all add: bytes_read_def read_socket_def MAX_PDU_SIZE_def)
  have m: "take MAX_PDU_SIZE [1, 2, 3 :: uint8_t] = [1, 2, 3]"
    by (simp add: MAX_PDU_SIZE_def)
  show ?thesis
    using p np b1 b2 b3 m
      receivePDU_outcome [of 0 "\<lparr>mP2TimeoutMs = 1000\<rparr>" 0 "ReadDelivers [1, 2, 3]" "[9, 9]" "[1, 2, 3]"]
      receivePDU_outcome [of 0 "\<lparr>mP2TimeoutMs = 1000\<rparr>" 1 "ReadDelivers [1, 2, 3]" "[9, 9]" "[1, 2, 3]"]
      receivePDU_outcome [of 0 "\<lparr>mP2TimeoutMs = 1000\<rparr>" 1 ReadFails "[9, 9]" "[]"]
      receivePDU_outcome [of 0 "\<lparr>mP2TimeoutMs = 0\<rparr>" 0 "ReadDelivers []" "[9, 9]" "[]"]
    by (simp add: prod_eq_iff)
qed

section \<open>Properties of reportCPUUsageInfo\<close>

text \<open>
  Claim C10. Whenever \<open>getrusage\<close> succeeds the function returns true, whatever happens
  with \<open>/proc/uptime\<close>. If the file cannot be opened, or its first line does not give
  four fields, \<open>mIdleTime\<close> keeps its old value. If the line parses as \<open>A.B C.F\<close>, the
  stored idle time is \<open>double(A) + double(F) / 100.0\<close>: the whole seconds of the uptime and
  the fraction of the idle time. The idle whole seconds \<open>C\<close> (and \<open>B\<close>) play no part: two
  lines that agree on \<open>A\<close> and \<open>F\<close> store the same idle time.
\<close>

theorem reportCPUUsageInfo_idle_time:
  "(fst getrusage_result = 0 \<longrightarrow>
      fst (reportCPUUsageInfo D scanner getrusage_result uptimeFile this) = True) \<and>
   (fst getrusage_result = 0 \<and>
      (uptimeFile = None \<or>
       uptimeFile = Some content \<and> fst (scanner (c_str (getline content))) \<noteq> 4) \<longrightarrow>
      mIdleTime (snd (reportCPUUsageInfo D scanner getrusage_result uptimeFile this)) =
        mIdleTime this) \<and>
   (fst getrusage_result = 0 \<and> uptimeFile = Some content \<and>
      scanner (c_str (getline content)) = (4, A, B, C, F) \<longrightarrow>
      mIdleTime (snd (reportCPUUsageInfo D scanner getrusage_result uptimeFile this)) =
        d_add D (d_of_ulong D A) (d_div D (d_of_ulong D F) (d_100 D))) \<and>
   (fst getrusage_result = 0 \<and>
      scanner (c_str (getline content)) = (4, A, B, C, F) \<and>
      scanner (c_str (getline content')) = (4, A, B', C', F) \<longrightarrow>
      mIdleTime (snd (reportCPUUsageInfo D scanner getrusage_result (Some content) this)) =
      mIdleTime (snd (reportCPUUsageInfo D scanner getrusage_result (Some content') this)))"
  by (cases getrusage_result)
    (auto simp: reportCPUUsageInfo_def Let_def split: prod.splits option.splits)

theorem reportCPUUsageInfo_idle_time_witness:
  "fst (reportCPUUsageInfo exact_arith sscanf_uptime
      (0, \<lparr>ru_utime = \<lparr>tv_sec = 3, tv_usec = 250000\<rparr>, ru_stime = \<lparr>tv_sec = 1, tv_usec = 0\<rparr>\<rparr>)
      None \<lparr>mUserSpaceTime = 0, mKernelSpaceTime = 0, mIdleTime = 7\<rparr>) = True \<and>
   mIdleTime (snd (reportCPUUsageInfo exact_arith sscanf_uptime
      (0, \<lparr>ru_utime = \<lparr>tv_sec = 3, tv_usec = 250000\<rparr>, ru_stime = \<lparr>tv_sec = 1, tv_usec = 0\<rparr>\<rparr>)
      None \<lparr>mUserSpaceTime = 0, mKernelSpaceTime = 0, mIdleTime = 7\<rparr>)) = 7 \<and>
   fst (sscanf_uptime (c_str (getline (''12345 54321'' @ [CHR 0x0A])))) \<noteq> 4 \<and>
   fst (reportCPUUsageInfo exact_arith sscanf_uptime
      (0, \<lparr>ru_utime = \<lparr>tv_sec = 3, tv_usec = 250000\<rparr>, ru_stime = \<lparr>tv_sec = 1, tv_usec = 0\<rparr>\<rparr>)
      (Some (''12345 54321'' @ [CHR 0x0A]))
      \<lparr>mUserSpaceTime = 0, mKernelSpaceTime = 0, mIdleTime = 7\<rparr>) = True \<and>
   mIdleTime (snd (reportCPUUsageInfo exact_arith sscanf_uptime
      (0, \<lparr>ru_utime = \<lparr>tv_sec = 3, tv_usec = 250000\<rparr>, ru_stime = \<lparr>tv_sec = 1, tv_usec = 0\<rparr>\<rparr>)
      (Some (''12345 54321'' @ [CHR 0x0A]))
      \<lparr>mUserSpaceTime = 0, mKernelSpaceTime = 0, mIdleTime = 7\<rparr>)) = 7 \<and>
   sscanf_uptime (c_str (getline (''12345.67 54321.89'' @ [CHR 0x0A]))) =
     (4, 12345, 67, 54321, 89) \<and>
   mIdleTime (snd (reportCPUUsageInfo exact_arith sscanf_uptime
      (0, \<lparr>ru_utime = \<lparr>tv_sec = 3, tv_usec = 250000\<rparr>, ru_stime = \<lparr>tv_sec = 1, tv_usec = 0\<rparr>\<rparr>)
      (Some (''12345.67 54321.89'' @ [CHR 0x0A]))
      \<lparr>mUserSpaceTime = 0, mKernelSpaceTime = 0, mIdleTime = 7\<rparr>)) = 12345 + 89 / 100 \<and>
   sscanf_uptime (c_str (getline (''12345.00 99.89'' @ [CHR 0x0A]))) = (4, 12345, 0, 99, 89) \<and>
   mIdleTime (snd (reportCPUUsageInfo exact_arith sscanf_uptime
      (0, \<lparr>ru_utime = \<lparr>tv_sec = 3, tv_usec = 250000\<rparr>, ru_stime = \<lparr>tv_sec = 1, tv_usec = 0\<rparr>\<rparr>)
      (Some (''12345.00 99.89'' @ [CHR 0x0A]))
      \<lparr>mUserSpaceTime = 0, mKernelSpaceTime = 0, mIdleTime = 7\<rparr>)) = 12345 + 89 / 100"
proof -
  define ru where
    "ru = \<lparr>ru_utime = \<lparr>tv_sec = 3, tv_usec = 250000\<rparr>, ru_stime = \<lparr>tv_sec = 1, tv_usec = 0\<rparr>\<rparr>"
  define this0 :: "real CPUUsageInfo" where
    "this0 = \<lparr>mUserSpaceTime = 0, mKernelSpaceTime = 0, mIdleTime = 7\<rparr>"
  have rc: "fst (0 :: int, ru) = 0"
    by simp
  have bad: "fst (sscanf_uptime (c_str (getline (''12345 54321'' @ [CHR 0x0A])))) \<noteq> 4"
    by (simp add: c_str_def getline_def sscanf_uptime_def scan_lu_def isspace_c_def isdigit_c_def
        strtoul_value_def decimal_value_def)
  have good: "sscanf_uptime (c_str (getline (''12345.67 54321.89'' @ [CHR 0x0A]))) =
      (4, 12345, 67, 54321, 89)"
    by (simp add: c_str_def getline_def sscanf_uptime_def scan_lu_def isspace_c_def isdigit_c_def
        strtoul_value_def decimal_value_def)
  have good': "sscanf_uptime (c_str (getline (''12345.00 99.89'' @ [CHR 0x0A]))) =
      (4, 12345, 0, 99, 89)"
    by (simp add: c_str_def getline_def sscanf_uptime_def scan_lu_def isspace_c_def isdigit_c_def
        strtoul_value_def decimal_value_def)
  have idle: "mIdleTime this0 = 7"
    by (simp add: this0_def)
  have val: "d_add exact_arith (d_of_ulong exact_arith 12345)
      (d_div exact_arith (d_of_ulong exact_arith 89) (d_100 exact_arith)) = 12345 + 89 / 100"
    by (simp add: exact_arith_def)
  note none = reportCPUUsageInfo_idle_time
      [of "(0, ru)" exact_arith sscanf_uptime None this0 "[]" 0 0 0 0 "[]" 0 0]
  note unparsed = reportCPUUsageInfo_idle_time
      [of "(0, ru)" exact_arith sscanf_uptime "Some (''12345 54321'' @ [CHR 0x0A])" this0
        "''12345 54321'' @ [CHR 0x0A]" 0 0 0 0 "[]" 0 0]
  note parsed = reportCPUUsageInfo_idle_time
      [of "(0, ru)" exact_arith sscanf_uptime "Some (''12345.67 54321.89'' @ [CHR 0x0A])" this0
        "''12345.67 54321.89'' @ [CHR 0x0A]" 12345 67 54321 89 "''12345.00 99.89'' @ [CHR 0x0A]"
        0 99]
  have 1: "fst (reportCPUUsageInfo exact_arith sscanf_uptime (0, ru) None this0) = True"
    using none rc by blast
  have 2: "mIdleTime (snd (reportCPUUsageInfo exact_arith sscanf_uptime (0, ru) None this0)) = 7"
    using none rc idle by simp
  have 3: "fst (reportCPUUsageInfo exact_arith sscanf_uptime (0, ru)
      (Some (''12345 54321'' @ [CHR 0x0A])) this0) = True"
    using unparsed rc by blast
  have 4: "mIdleTime (snd (reportCPUUsageInfo exact_arith sscanf_uptime (0, ru)
      (Some (''12345 54321'' @ [CHR 0x0A])) this0)) = 7"
    using unparsed rc bad idle by simp
  have 5: "mIdleTime (snd (reportCPUUsageInfo exact_arith sscanf_uptime (0, ru)
      (Some (''12345.67 54321.89'' @ [CHR 0x0A])) this0)) = 12345 + 89 / 100"
    using parsed rc good val by simp
  have 6: "mIdleTime (snd (reportCPUUsageInfo exact_arith sscanf_uptime (0, ru)
      (Some (''12345.00 99.89'' @ [CHR 0x0A])) this0)) = 12345 + 89 / 100"
    using parsed rc good good' 5 by simp
  show ?thesis
    using 1 2 bad 3 4 good 5 good' 6 unfolding ru_def this0_def by blast
qed

section \<open>Properties of the trigger engine\<close>

lemma tick_condition_cases:
  assumes "tick_condition c now v push_ok st = (st', out)"
  shows "(out = NoTrigger \<and> last_trigger_ts st' = last_trigger_ts st) \<or>
         (out = Triggered now push_ok \<and> last_trigger_ts st' = now \<and>
          last_trigger_ts st + uint (minimumPublishIntervalMs c) \<le> now)"
  using assms by (auto simp: tick_condition_def split: if_splits)

lemma trigger_times_spaced:
  "spaced (uint (minimumPublishIntervalMs c)) (last_trigger_ts st) (trigger_times c ticks st)"
proof (induction ticks arbitrary: st)
  case Nil
  show ?case by simp
next
  case (Cons tick ticks)
  obtain now v push_ok where tick: "tick = (now, v, push_ok)"
    by (cases tick)
  obtain st' out where step: "tick_condition c now v push_ok st = (st', out)"
    by (cases "tick_condition c now v push_ok st")
  from tick_condition_cases [OF step] show ?case
  proof
    assume "out = NoTrigger \<and> last_trigger_ts st' = last_trigger_ts st"
    with Cons.IH [of st'] tick step show ?thesis by simp
  next
    assume "out = Triggered now push_ok \<and> last_trigger_ts st' = now \<and>
          last_trigger_ts st + uint (minimumPublishIntervalMs c) \<le> now"
    with Cons.IH [of st'] tick step show ?thesis by simp
  qed
qed

text \<open>
  Claim C1, as amended. For a condition with minimum publish interval \<open>p\<close>, every trigger
  time of a run of ticks is at least the previous trigger time plus \<open>p\<close> (the first one
  at least \<open>last_trigger_ts + p\<close>): the tick does not fire, and keeps \<open>last_trigger_ts\<close>,
  whenever \<open>now - last_trigger_ts < p\<close>, and a tick that fires at \<open>now\<close> has
  \<open>last_trigger_ts + p \<le> now\<close> and sets \<open>last_trigger_ts\<close> to \<open>now\<close>. The distance can
  be exactly \<open>p\<close>.
\<close>

theorem min_publish_interval_respected:
  "spaced (uint (minimumPublishIntervalMs c)) (last_trigger_ts st) (trigger_times c ticks st) \<and>
   (now - last_trigger_ts st < uint (minimumPublishIntervalMs c) \<longrightarrow>
      snd (tick_condition c now v push_ok st) = NoTrigger \<and>
      last_trigger_ts (fst (tick_condition c now v push_ok st)) = last_trigger_ts st) \<and>
   (snd (tick_condition c now v push_ok st) = Triggered t pushed \<longrightarrow>
      t = now \<and> last_trigger_ts st + uint (minimumPublishIntervalMs c) \<le> t \<and>
      last_trigger_ts (fst (tick_condition c now v push_ok st)) = t)"
proof -
  have "now - last_trigger_ts st < uint (minimumPublishIntervalMs c) \<Longrightarrow>
      snd (tick_condition c now v push_ok st) = NoTrigger \<and>
      last_trigger_ts (fst (tick_condition c now v push_ok st)) = last_trigger_ts st"
    by (simp add: tick_condition_def)
  moreover have "snd (tick_condition c now v push_ok st) = Triggered t pushed \<Longrightarrow>
      t = now \<and> last_trigger_ts st + uint (minimumPublishIntervalMs c) \<le> t \<and>
      last_trigger_ts (fst (tick_condition c now v push_ok st)) = t"
    using tick_condition_cases [OF surjective_pairing, of c now v push_ok st] by auto
  ultimately show ?thesis
    using trigger_times_spaced by blast
qed

theorem min_publish_interval_respected_witness:
  "(999 :: int) - last_trigger_ts \<lparr>last_eval = False, last_trigger_ts = 0, pending_after = None\<rparr>
     < uint (minimumPublishIntervalMs
         \<lparr>minimumPublishIntervalMs = 1000, afterDuration = 0, triggerOnlyOnRisingEdge = False\<rparr>) \<and>
   snd (tick_condition
     \<lparr>minimumPublishIntervalMs = 1000, afterDuration = 0, triggerOnlyOnRisingEdge = False\<rparr>
     999 True True \<lparr>last_eval = False, last_trigger_ts = 0, pending_after = None\<rparr>) = NoTrigger \<and>
   snd (tick_condition
     \<lparr>minimumPublishIntervalMs = 1000, afterDuration = 0, triggerOnlyOnRisingEdge = False\<rparr>
     1000 True True \<lparr>last_eval = False, last_trigger_ts = 0, pending_after = None\<rparr>) =
     Triggered 1000 True \<and>
   last_trigger_ts (fst (tick_condition
     \<lparr>minimumPublishIntervalMs = 1000, afterDuration = 0, triggerOnlyOnRisingEdge = False\<rparr>
     1000 True True \<lparr>last_eval = False, last_trigger_ts = 0, pending_after = None\<rparr>)) = 1000 \<and>
   spaced 1000 0 (trigger_times
     \<lparr>minimumPublishIntervalMs = 1000, afterDuration = 0, triggerOnlyOnRisingEdge = False\<rparr>
     [(999, True, True), (1000, True, True), (1500, True, False), (2000, True, True)]
     \<lparr>last_eval = False, last_trigger_ts = 0, pending_after = None\<rparr>)"
proof -
  have skip: "(999 :: int) -
      last_trigger_ts \<lparr>last_eval = False, last_trigger_ts = 0, pending_after = None\<rparr>
      < uint (minimumPublishIntervalMs
         \<lparr>minimumPublishIntervalMs = 1000, afterDuration = 0, triggerOnlyOnRisingEdge = False\<rparr>)"
    by simp
  have fire: "snd (tick_condition
      \<lparr>minimumPublishIntervalMs = 1000, afterDuration = 0, triggerOnlyOnRisingEdge = False\<rparr>
      1000 True True \<lparr>last_eval = False, last_trigger_ts = 0, pending_after = None\<rparr>) =
      Triggered 1000 True"
    by (simp add: tick_condition_def)
  show ?thesis
    using skip fire
      min_publish_interval_respected
        [of "\<lparr>minimumPublishIntervalMs = 1000, afterDuration = 0, triggerOnlyOnRisingEdge = False\<rparr>"
          "\<lparr>last_eval = False, last_trigger_ts = 0, pending_after = None\<rparr>"
          "[(999, True, True), (1000, True, True), (1500, True, False), (2000, True, True)]"
          999 True True 1000 True]
      min_publish_interval_respected
        [of "\<lparr>minimumPublishIntervalMs = 1000, afterDuration = 0, triggerOnlyOnRisingEdge = False\<rparr>"
          "\<lparr>last_eval = False, last_trigger_ts = 0, pending_after = None\<rparr>"
          "[]" 1000 True True 1000 True]
    by simp
qed

text \<open>
  Claim C1 as stated asks for a trigger time strictly greater than the previous one plus
  \<open>p\<close>. With \<open>p = 1000\<close> and the condition true at the ticks 1000 and 2000, both ticks
  fire, and 2000 is not greater than 1000 + 1000.
\<close>

theorem strict_spacing_counterexample:
  "trigger_times
     \<lparr>minimumPublishIntervalMs = 1000, afterDuration = 0, triggerOnlyOnRisingEdge = False\<rparr>
     [(1000, True, True), (2000, True, True)]
     \<lparr>last_eval = False, last_trigger_ts = 0, pending_after = None\<rparr> = [1000, 2000] \<and>
   \<not> (1000 + uint (minimumPublishIntervalMs
       \<lparr>minimumPublishIntervalMs = 1000, afterDuration = 0, triggerOnlyOnRisingEdge = False\<rparr>)
     < (2000 :: int)) \<and>
   \<not> strictly_spaced
     (uint (minimumPublishIntervalMs
        \<lparr>minimumPublishIntervalMs = 1000, afterDuration = 0, triggerOnlyOnRisingEdge = False\<rparr>))
     1000
     (tl (trigger_times
        \<lparr>minimumPublishIntervalMs = 1000, afterDuration = 0, triggerOnlyOnRisingEdge = False\<rparr>
        [(1000, True, True), (2000, True, True)]
        \<lparr>last_eval = False, last_trigger_ts = 0, pending_after = None\<rparr>))"
  by (simp add: tick_condition_def)

text \<open>
  Scenario 3 of the specification (always true, interval 1000) and its Scenario 2 (rising
  edge only, values false, true, true, false, true at the times 1 to 5).
\<close>

lemma run_example:
  "trigger_times \<lparr>minimumPublishIntervalMs = 1000, afterDuration = 0, triggerOnlyOnRisingEdge = False\<rparr>
     [(0, True, True), (500, True, True), (999, True, True), (1000, True, True), (1500, True, True), (2000, True, True)]
     \<lparr>last_eval = False, last_trigger_ts = - 1000, pending_after = None\<rparr> = [0, 1000, 2000]"
  by (simp add: tick_condition_def)

lemma scenario2:
  "trigger_times \<lparr>minimumPublishIntervalMs = 0, afterDuration = 0, triggerOnlyOnRisingEdge = True\<rparr>
     [(1, False, True), (2, True, True), (3, True, True), (4, False, True), (5, True, True)]
     \<lparr>last_eval = False, last_trigger_ts = 0, pending_after = None\<rparr> = [2, 5]"
  by (simp add: tick_condition_def)

section \<open>Properties of send\<close>







text \<open>
  Scenario 6 of the specification, under every reading: 9999000 bytes reserved, a payload
  of 2000 bytes.
\<close>

lemma scenario6:
  "fst (send order test MAXIMUM_IOT_SDK_HEAP_MEMORY_BYTES 2000 9999000) = QuotaReached"
  by (cases order; cases test)
    (simp_all add: send_def Let_def quota_reached_def reported_usage_def getMaxSendSize_def
      AWS_IOT_MAX_MESSAGE_SIZE_def MAXIMUM_IOT_SDK_HEAP_MEMORY_BYTES_def)

end
